theory Spec2Isabelle
  imports Main "HOL-Library.Sublist"
begin

section \<open>Data model (types.ts)\<close>

text \<open>
  JavaScript strings are modelled as HOL strings, one \<open>char\<close> standing for one UTF-16
  code unit below 256, so that \<open>length\<close> is the \<open>.length\<close> of the source. Dates are
  milliseconds since the epoch. The results of \<open>new Date().toISOString()\<close> are inputs of
  the model: the environment hands over the string that the clock produced.
\<close>

type_synonym date = nat

datatype note_type = Text_note | Image_note

record Note =
  id_note :: string
  title :: string
  content :: string
  createdAt_note :: date
  type_note :: note_type

record Question =
  question :: string
  options :: "string list"
  correctAnswerIndex :: int

record Quiz =
  id_quiz :: string
  questions_quiz :: "Question list"
  createdAt_quiz :: date
  score_quiz :: nat

datatype role = User | Model

record ChatMessage =
  id_msg :: string
  role_msg :: role
  text_msg :: string

section \<open>JavaScript values and strings\<close>

text \<open>
  The value that \<open>JSON.parse\<close> returns. An object is the list of its own properties,
  each key once. Numbers are the integers; the gateway only compares them with 0.
\<close>

datatype json =
    JNull
  | JBool bool
  | JNum int
  | JStr string
  | JArr "json list"
  | JObj "(string \<times> json) list"

text \<open>
  What a \<open>throw\<close> carries: an instance of \<open>Error\<close> (or of a subclass) with its
  message, or a value that is no \<open>Error\<close>.
\<close>

datatype thrown = Error string | NonError

text \<open>The message of the \<open>TypeError\<close> that a property read from \<open>null\<close> throws.\<close>

definition null_read_message :: string where
  "null_read_message = ''Cannot read properties of null''"

text \<open>Property read \<open>v.key\<close>: \<open>None\<close> is \<open>undefined\<close>; reading from \<open>null\<close> throws.\<close>

definition get_prop :: "json \<Rightarrow> string \<Rightarrow> thrown + json option" where
  "get_prop v key =
     (case v of
        JNull \<Rightarrow> Inl (Error null_read_message)
      | JObj kvs \<Rightarrow> Inr (map_of kvs key)
      | _ \<Rightarrow> Inr None)"

text \<open>\<open>v.length\<close> for a value that is neither \<open>null\<close> nor \<open>undefined\<close>.\<close>

definition js_length :: "json \<Rightarrow> json option" where
  "js_length v =
     (case v of
        JArr xs \<Rightarrow> Some (JNum (int (length xs)))
      | JStr s \<Rightarrow> Some (JNum (int (length s)))
      | JObj kvs \<Rightarrow> map_of kvs ''length''
      | _ \<Rightarrow> None)"

text \<open>Truthiness of a value other than \<open>undefined\<close>, as \<open>!v\<close> tests it.\<close>

definition truthy :: "json \<Rightarrow> bool" where
  "truthy v =
     (case v of
        JNull \<Rightarrow> False
      | JBool b \<Rightarrow> b
      | JNum n \<Rightarrow> n \<noteq> 0
      | JStr s \<Rightarrow> s \<noteq> []
      | _ \<Rightarrow> True)"

text \<open>\<open>String.prototype.trim\<close>: white space and line terminators below 256.\<close>

definition is_white_space :: "char \<Rightarrow> bool" where
  "is_white_space c =
     (c \<in> set [CHR 0x09, CHR 0x0A, CHR 0x0B, CHR 0x0C, CHR 0x0D, CHR 0x20, CHR 0xA0])"

definition trim :: "string \<Rightarrow> string" where
  "trim s = rev (dropWhile is_white_space (rev (dropWhile is_white_space s)))"

text \<open>\<open>Array.prototype.join\<close>.\<close>

fun join :: "string \<Rightarrow> string list \<Rightarrow> string" where
  "join sep [] = []"
| "join sep [x] = x"
| "join sep (x # y # ys) = x @ sep @ join sep (y # ys)"

section \<open>AI Gateway (geminiService.ts)\<close>

datatype schema =
    S_String string
  | S_Integer string
  | S_Array string schema
  | S_Object "(string \<times> schema) list" "string list"

definition quizSchema :: schema where
  "quizSchema =
     S_Object
       [(''questions'',
         S_Array ''A list of 5 multiple-choice questions.''
           (S_Object
              [(''question'', S_String ''The question text.''),
               (''options'',
                S_Array ''An array of 4 possible answers.'' (S_String [])),
               (''correctAnswerIndex'',
                S_Integer ''The 0-based index of the correct answer in the options array.'')]
              [''question'', ''options'', ''correctAnswerIndex'']))]
       [''questions'']"

record quiz_request =
  model_req :: string
  contents_req :: string
  responseMimeType :: string
  responseSchema :: schema

text \<open>
  What the external service does with a request, seen through \<open>response.text\<close> and
  \<open>JSON.parse\<close>: the call rejects with what it throws, the text does not parse (with
  the message of the \<open>SyntaxError\<close>), or it parses to a value.
\<close>

datatype ai_reply = Rejected thrown | Unparseable string | Parsed json

definition quizGenerationModel :: string where
  "quizGenerationModel = ''gemini-2.5-flash''"

definition note_block :: "Note \<Rightarrow> string" where
  "note_block note =
     ''Note Title: '' @ title note @ [CHR 0x0A] @ ''Content:'' @ [CHR 0x0A] @ content note"

definition allNotesContent :: "Note list \<Rightarrow> string" where
  "allNotesContent notes =
     join ([CHR 0x0A, CHR 0x0A] @ ''---'' @ [CHR 0x0A, CHR 0x0A]) (map note_block notes)"

definition quiz_prompt :: "Note list \<Rightarrow> quiz_request" where
  "quiz_prompt notes =
     \<lparr> model_req = quizGenerationModel,
       contents_req =
         ''Based on the following notes, generate a 5-question multiple-choice quiz. ''
         @ ''The questions should test key concepts from the notes.''
         @ [CHR 0x0A, CHR 0x0A] @ ''CONTEXT:'' @ [CHR 0x0A] @ allNotesContent notes,
       responseMimeType = ''application/json'',
       responseSchema = quizSchema \<rparr>"

text \<open>The body of the \<open>try\<close> block, after the service has answered.\<close>

definition quiz_try_body :: "ai_reply \<Rightarrow> thrown + json" where
  "quiz_try_body reply =
     (case reply of
        Rejected e \<Rightarrow> Inl e
      | Unparseable m \<Rightarrow> Inl (Error m)
      | Parsed result \<Rightarrow>
          (case get_prop result ''questions'' of
             Inl e \<Rightarrow> Inl e
           | Inr None \<Rightarrow> Inl (Error ''AI failed to generate quiz questions.'')
           | Inr (Some qs) \<Rightarrow>
               if \<not> truthy qs \<or> js_length qs = Some (JNum 0)
               then Inl (Error ''AI failed to generate quiz questions.'')
               else Inr qs))"

text \<open>
  The operation returns the requests it sent to the service, in order, and its result.
  Whatever the \<open>try\<close> block throws, the \<open>catch\<close> throws the generic error instead.
\<close>

definition generateQuizFromNotes ::
  "(quiz_request \<Rightarrow> ai_reply) \<Rightarrow> Note list \<Rightarrow> quiz_request list \<times> (thrown + json)" where
  "generateQuizFromNotes ai notes =
     (if length (trim (allNotesContent notes)) < 50
      then ([], Inl (Error ''Not enough content to generate a quiz. Please add more notes.''))
      else
        ([quiz_prompt notes],
         (case quiz_try_body (ai (quiz_prompt notes)) of
            Inl e \<Rightarrow>
              Inl (Error (''Failed to generate quiz from AI. The content might be ''
                          @ ''too complex or the service is unavailable.''))
          | Inr qs \<Rightarrow> Inr qs)))"

text \<open>
  The chat operation. A reply of the service is a refusal of the call, or a stream: the
  fragments it yields in order, and how it ends. A fragment is given by its \<open>text\<close>,
  which is a string or \<open>undefined\<close> (\<open>None\<close>).
\<close>

record chat_turn =
  role_turn :: role
  text_turn :: string

record chat_request =
  model_chat :: string
  contents_chat :: "chat_turn list"
  systemInstruction :: string

datatype stream_end = Completed | Broken thrown

datatype chat_reply = Refused thrown | Streaming "string option list" stream_end

definition chatModel :: string where
  "chatModel = ''gemini-2.5-flash''"

definition chat_prompt :: "Note list \<Rightarrow> chat_turn list \<Rightarrow> chat_request" where
  "chat_prompt notes chatHistory' =
     \<lparr> model_chat = chatModel,
       contents_chat = chatHistory',
       systemInstruction =
         ''You are a helpful study assistant called Note2Brain. Your sole purpose is to ''
         @ ''answer questions based ONLY on the provided context from the user's notes. ''
         @ ''Do not use any external knowledge. If the answer cannot be found in the ''
         @ ''provided notes, clearly state that the information is not available in the ''
         @ ''notes. Here is the context:'' @ [CHR 0x0A, CHR 0x0A] @ allNotesContent notes \<rparr>"

definition getChatResponseStream ::
  "(chat_request \<Rightarrow> chat_reply) \<Rightarrow> Note list \<Rightarrow> chat_turn list
     \<Rightarrow> thrown + (string option list \<times> stream_end)" where
  "getChatResponseStream ai notes chatHistory' =
     (case ai (chat_prompt notes chatHistory') of
        Refused e \<Rightarrow> Inl (Error ''Failed to get chat response from AI.'')
      | Streaming chunks ending \<Rightarrow> Inr (chunks, ending))"

section \<open>Note store (App.tsx)\<close>

text \<open>
  \<open>addNote\<close> reads the clock twice: \<open>iso_now\<close> is the result of
  \<open>new Date().toISOString()\<close>, \<open>now\<close> the second \<open>new Date()\<close>.
\<close>

definition addNote ::
  "string \<Rightarrow> date \<Rightarrow> string \<Rightarrow> string \<Rightarrow> note_type \<Rightarrow> Note list \<Rightarrow> Note list" where
  "addNote iso_now now title' content' type' prev =
     prev @ [\<lparr> id_note = iso_now, title = title', content = content',
               createdAt_note = now, type_note = type' \<rparr>]"

definition deleteNote :: "Note list \<Rightarrow> string \<Rightarrow> Note list" where
  "deleteNote notes noteId = filter (\<lambda>note. id_note note \<noteq> noteId) notes"

datatype note_op =
    Add string date string string note_type
  | Delete string

fun note_step :: "Note list \<Rightarrow> note_op \<Rightarrow> Note list" where
  "note_step notes (Add iso_now now title' content' type') =
     addNote iso_now now title' content' type' notes"
| "note_step notes (Delete noteId) = deleteNote notes noteId"

definition run_notes :: "note_op list \<Rightarrow> Note list" where
  "run_notes ops = foldl note_step [] ops"

text \<open>The clock strings of the adds of a run, in order.\<close>

fun add_stamps :: "note_op list \<Rightarrow> string list" where
  "add_stamps [] = []"
| "add_stamps (Add iso_now now title' content' type' # ops) = iso_now # add_stamps ops"
| "add_stamps (Delete noteId # ops) = add_stamps ops"

section \<open>Chat history (App.tsx, ChatView.tsx)\<close>

text \<open>\<open>Array.prototype.findIndex\<close>: the first index whose element passes, or -1.\<close>

fun findIndex :: "('a \<Rightarrow> bool) \<Rightarrow> 'a list \<Rightarrow> int" where
  "findIndex p [] = - 1"
| "findIndex p (x # xs) =
     (if p x then 0 else (let i = findIndex p xs in if i = - 1 then - 1 else i + 1))"

definition handleNewChatMessage :: "ChatMessage list \<Rightarrow> ChatMessage \<Rightarrow> ChatMessage list" where
  "handleNewChatMessage prev message =
     (let existingIndex = findIndex (\<lambda>m. id_msg m = id_msg message) prev
      in if existingIndex > - 1 then prev[nat existingIndex := message]
         else prev @ [message])"

text \<open>\<open>Number.prototype.toString\<close> on a non-negative integer: its decimal digits.\<close>

fun toString :: "nat \<Rightarrow> string" where
  "toString n =
     (if n < 10 then [char_of (48 + n)]
      else toString (n div 10) @ [char_of (48 + n mod 10)])"

declare toString.simps [simp del]

text \<open>
  The state that \<open>handleSend\<close> works on: the state of the chat view and the chat
  history of the application.
\<close>

record chat_state =
  input :: string
  isLoading_chat :: bool
  error_chat :: "string option"
  chatHistory :: "ChatMessage list"

text \<open>The readings of \<open>Date.now()\<close>: at sending, when the stream opens, in the \<open>catch\<close>.\<close>

record clock =
  send_at :: nat
  stream_at :: nat
  fail_at :: nat

definition errorMessage :: "thrown \<Rightarrow> string" where
  "errorMessage err = (case err of Error m \<Rightarrow> m | NonError \<Rightarrow> ''An unknown error occurred'')"

definition apiHistory :: "chat_state \<Rightarrow> chat_turn list" where
  "apiHistory s =
     map (\<lambda>m. \<lparr> role_turn = role_msg m, text_turn = text_msg m \<rparr>) (chatHistory s)
     @ [\<lparr> role_turn = User, text_turn = input s \<rparr>]"

text \<open>
  What \<open>modelResponseText += chunk.text\<close> appends: the text of the fragment, and the
  word "undefined" when the text is \<open>undefined\<close>.
\<close>

definition chunk_text :: "string option \<Rightarrow> string" where
  "chunk_text chunk = (case chunk of None \<Rightarrow> ''undefined'' | Some t \<Rightarrow> t)"

text \<open>The \<open>for await\<close> loop over the fragments of the stream.\<close>

fun consume ::
  "string \<Rightarrow> string \<Rightarrow> string option list \<Rightarrow> ChatMessage list \<Rightarrow> ChatMessage list" where
  "consume modelMessageId modelResponseText [] h = h"
| "consume modelMessageId modelResponseText (chunk # rest) h =
     consume modelMessageId (modelResponseText @ chunk_text chunk) rest
       (handleNewChatMessage h
          \<lparr> id_msg = modelMessageId, role_msg = Model,
            text_msg = modelResponseText @ chunk_text chunk \<rparr>)"

text \<open>The placeholder, then the loop.\<close>

definition receive ::
  "string \<Rightarrow> string option list \<Rightarrow> ChatMessage list \<Rightarrow> ChatMessage list" where
  "receive modelMessageId chunks h =
     consume modelMessageId [] chunks
       (handleNewChatMessage h
          \<lparr> id_msg = modelMessageId, role_msg = Model, text_msg = ''...'' \<rparr>)"

definition user_sent :: "clock \<Rightarrow> chat_state \<Rightarrow> ChatMessage list" where
  "user_sent clk s =
     handleNewChatMessage (chatHistory s)
       \<lparr> id_msg = toString (send_at clk), role_msg = User, text_msg = input s \<rparr>"

text \<open>The \<open>catch\<close> block followed by \<open>finally\<close>.\<close>

definition caught :: "clock \<Rightarrow> thrown \<Rightarrow> ChatMessage list \<Rightarrow> chat_state" where
  "caught clk err h =
     \<lparr> input = [], isLoading_chat = False, error_chat = Some (errorMessage err),
       chatHistory =
         handleNewChatMessage h
           \<lparr> id_msg = toString (fail_at clk + 1), role_msg = Model,
             text_msg = ''Error: '' @ errorMessage err \<rparr> \<rparr>"

definition handleSend ::
  "(chat_request \<Rightarrow> chat_reply) \<Rightarrow> Note list \<Rightarrow> clock \<Rightarrow> chat_state \<Rightarrow> chat_state" where
  "handleSend ai notes clk s =
     (if trim (input s) = [] \<or> isLoading_chat s then s
      else
        (case getChatResponseStream ai notes (apiHistory s) of
           Inl err \<Rightarrow> caught clk err (user_sent clk s)
         | Inr (chunks, ending) \<Rightarrow>
             (let modelMessageId = toString (stream_at clk + 1);
                  h = receive modelMessageId chunks (user_sent clk s)
              in case ending of
                   Completed \<Rightarrow>
                     \<lparr> input = [], isLoading_chat = False, error_chat = None,
                       chatHistory = h \<rparr>
                 | Broken err \<Rightarrow> caught clk err h)))"

section \<open>Quiz taking (QuizView, App.tsx)\<close>

text \<open>
  An entry of \<open>selectedAnswers\<close> is \<open>null\<close> or the index of an option; a read beyond
  the end of the array gives \<open>undefined\<close>.
\<close>

datatype answer = Undefined | Null | Picked nat

definition js_nth :: "answer list \<Rightarrow> nat \<Rightarrow> answer" where
  "js_nth xs i = (if i < length xs then xs ! i else Undefined)"

definition js_assign :: "answer list \<Rightarrow> nat \<Rightarrow> answer \<Rightarrow> answer list" where
  "js_assign xs i v =
     (if i < length xs then xs[i := v]
      else xs @ replicate (i - length xs) Undefined @ [v])"

text \<open>\<open>a === k\<close> for an entry \<open>a\<close> and a number \<open>k\<close>.\<close>

definition strict_eq :: "answer \<Rightarrow> int \<Rightarrow> bool" where
  "strict_eq a k = (case a of Picked n \<Rightarrow> int n = k | _ \<Rightarrow> False)"

text \<open>The state of the quiz view, and the quiz history of the application.\<close>

record quiz_state =
  questions :: "Question list"
  isLoading :: bool
  error :: "string option"
  currentQuestionIndex :: nat
  selectedAnswers :: "answer list"
  isFinished :: bool
  score :: nat
  quizHistory :: "Quiz list"

definition handleQuizComplete ::
  "string \<Rightarrow> Question list \<Rightarrow> nat \<Rightarrow> date \<Rightarrow> Quiz list \<Rightarrow> Quiz list" where
  "handleQuizComplete quizId questions' score' now prev =
     \<lparr> id_quiz = quizId, questions_quiz = questions', createdAt_quiz = now,
       score_quiz = score' \<rparr> # prev"

definition handleSelectAnswer :: "nat \<Rightarrow> quiz_state \<Rightarrow> quiz_state" where
  "handleSelectAnswer optionIndex s =
     (if isFinished s then s
      else s\<lparr> selectedAnswers :=
                js_assign (selectedAnswers s) (currentQuestionIndex s) (Picked optionIndex) \<rparr>)"

text \<open>The scoring loop of \<open>handleNext\<close>, from index \<open>i\<close> with the score so far.\<close>

function score_loop :: "Question list \<Rightarrow> answer list \<Rightarrow> nat \<Rightarrow> nat \<Rightarrow> nat" where
  "score_loop qs sel i finalScore =
     (if i < length qs
      then score_loop qs sel (i + 1)
             (if strict_eq (js_nth sel i) (correctAnswerIndex (qs ! i))
              then finalScore + 1 else finalScore)
      else finalScore)"
  by pat_completeness auto
termination
  by (relation "measure (\<lambda>(qs, sel, i, finalScore). length qs - i)") auto

declare score_loop.simps [simp del]

definition handleNext :: "string \<Rightarrow> date \<Rightarrow> quiz_state \<Rightarrow> quiz_state" where
  "handleNext iso_now now s =
     (if int (currentQuestionIndex s) < int (length (questions s)) - 1
      then s\<lparr> currentQuestionIndex := currentQuestionIndex s + 1 \<rparr>
      else
        (let finalScore = score_loop (questions s) (selectedAnswers s) 0 0
         in s\<lparr> score := finalScore, isFinished := True,
                quizHistory :=
                  handleQuizComplete iso_now (questions s) finalScore now (quizHistory s) \<rparr>))"

definition review :: "quiz_state \<Rightarrow> quiz_state" where
  "review s = s\<lparr> isFinished := False, currentQuestionIndex := 0 \<rparr>"

text \<open>
  Which screen the view renders, in the order of its early returns, and so which
  controls the user can reach.
\<close>

datatype screen = Loading_screen | Error_screen | Result_screen | Question_screen

definition rendered :: "quiz_state \<Rightarrow> screen" where
  "rendered s =
     (if isLoading s then Loading_screen
      else if error s \<noteq> None then Error_screen
      else if isFinished s then Result_screen
      else Question_screen)"

datatype quiz_action = Select nat | Next string date | Review

fun quiz_step :: "quiz_state \<Rightarrow> quiz_action \<Rightarrow> quiz_state" where
  "quiz_step s (Select optionIndex) =
     (if rendered s = Question_screen \<and> currentQuestionIndex s < length (questions s)
         \<and> optionIndex < length (options (questions s ! currentQuestionIndex s))
      then handleSelectAnswer optionIndex s else s)"
| "quiz_step s (Next iso_now now) =
     (if rendered s = Question_screen \<and> currentQuestionIndex s < length (questions s)
         \<and> js_nth (selectedAnswers s) (currentQuestionIndex s) \<noteq> Null
      then handleNext iso_now now s else s)"
| "quiz_step s Review = (if rendered s = Result_screen then review s else s)"

text \<open>The view once \<open>fetchQuiz\<close> has stored the generated questions.\<close>

definition ready :: "Question list \<Rightarrow> Quiz list \<Rightarrow> quiz_state" where
  "ready generatedQuestions history =
     \<lparr> questions = generatedQuestions, isLoading = False, error = None,
       currentQuestionIndex = 0,
       selectedAnswers = replicate (length generatedQuestions) Null,
       isFinished = False, score = 0, quizHistory = history \<rparr>"

section \<open>Example inputs\<close>

definition short_note :: Note where
  "short_note =
     \<lparr> id_note = ''2026-01-01T00:00:00.000Z'', title = ''A'', content = ''hi'',
       createdAt_note = 0, type_note = Text_note \<rparr>"

definition long_note :: Note where
  "long_note =
     \<lparr> id_note = ''2026-01-01T00:00:00.000Z'', title = ''A'',
       content = replicate 60 (CHR ''x''), createdAt_note = 0, type_note = Text_note \<rparr>"

definition one_bad_question :: json where
  "one_bad_question =
     JArr [JObj [(''question'', JStr ''q''),
                 (''options'', JArr [JStr ''a'']),
                 (''correctAnswerIndex'', JNum 7)]]"

definition service_silent :: "quiz_request \<Rightarrow> ai_reply" where
  "service_silent req = Rejected NonError"

definition service_one_bad_question :: "quiz_request \<Rightarrow> ai_reply" where
  "service_one_bad_question req = Parsed (JObj [(''questions'', one_bad_question)])"

definition service_no_questions :: "quiz_request \<Rightarrow> ai_reply" where
  "service_no_questions req = Parsed (JObj [(''questions'', JArr [])])"

definition asked :: ChatMessage where
  "asked = \<lparr> id_msg = ''1000'', role_msg = User, text_msg = ''Hi?'' \<rparr>"

definition hel :: ChatMessage where
  "hel = \<lparr> id_msg = ''1201'', role_msg = Model, text_msg = ''Hel'' \<rparr>"

definition hello :: ChatMessage where
  "hello = \<lparr> id_msg = ''1201'', role_msg = Model, text_msg = ''Hello'' \<rparr>"

definition thanks :: ChatMessage where
  "thanks = \<lparr> id_msg = ''5000'', role_msg = User, text_msg = ''Thanks'' \<rparr>"

definition fresh_chat :: chat_state where
  "fresh_chat =
     \<lparr> input = ''Hi?'', isLoading_chat = False, error_chat = None, chatHistory = [] \<rparr>"

definition service_hello :: "chat_request \<Rightarrow> chat_reply" where
  "service_hello req = Streaming [Some ''Hel'', Some ''lo''] Completed"

definition service_nothing :: "chat_request \<Rightarrow> chat_reply" where
  "service_nothing req = Streaming [] Completed"

definition service_breaks :: "chat_request \<Rightarrow> chat_reply" where
  "service_breaks req = Streaming [Some ''Hel''] (Broken (Error ''boom''))"

definition service_gap :: "chat_request \<Rightarrow> chat_reply" where
  "service_gap req = Streaming [Some ''Hel'', None] Completed"

definition advancing_clock :: clock where
  "advancing_clock = \<lparr> send_at = 1000, stream_at = 1200, fail_at = 1500 \<rparr>"

definition stalled_clock :: clock where
  "stalled_clock = \<lparr> send_at = 1000, stream_at = 1200, fail_at = 1200 \<rparr>"

definition five_questions :: "Question list" where
  "five_questions =
     [\<lparr> question = ''q1'', options = [''a'', ''b'', ''c'', ''d''], correctAnswerIndex = 0 \<rparr>,
      \<lparr> question = ''q2'', options = [''a'', ''b'', ''c'', ''d''], correctAnswerIndex = 1 \<rparr>,
      \<lparr> question = ''q3'', options = [''a'', ''b'', ''c'', ''d''], correctAnswerIndex = 2 \<rparr>,
      \<lparr> question = ''q4'', options = [''a'', ''b'', ''c'', ''d''], correctAnswerIndex = 3 \<rparr>,
      \<lparr> question = ''q5'', options = [''a'', ''b'', ''c'', ''d''], correctAnswerIndex = 0 \<rparr>]"

text \<open>The fifth question is on screen and every question has its right answer selected.\<close>

definition all_right :: quiz_state where
  "all_right =
     \<lparr> questions = five_questions, isLoading = False, error = None,
       currentQuestionIndex = 4,
       selectedAnswers = [Picked 0, Picked 1, Picked 2, Picked 3, Picked 0],
       isFinished = False, score = 0, quizHistory = [] \<rparr>"

definition all_right_actions :: "quiz_action list" where
  "all_right_actions =
     [Select 0, Next ''2026-01-01T00:00:00.000Z'' 1000,
      Select 1, Next ''2026-01-01T00:00:01.000Z'' 2000,
      Select 2, Next ''2026-01-01T00:00:02.000Z'' 3000,
      Select 3, Next ''2026-01-01T00:00:03.000Z'' 4000,
      Select 0]"

definition one_question :: "Question list" where
  "one_question =
     [\<lparr> question = ''q'', options = [''a'', ''b'', ''c'', ''d''], correctAnswerIndex = 1 \<rparr>]"

definition finish_review_finish :: "quiz_action list" where
  "finish_review_finish =
     [Select 1, Next ''2026-01-01T00:00:00.000Z'' 1000, Review,
      Select 0, Next ''2026-01-01T00:00:05.000Z'' 6000]"

definition same_instant_adds :: "note_op list" where
  "same_instant_adds =
     [Add ''2026-01-01T00:00:00.000Z'' 1000 ''A'' ''alpha'' Text_note,
      Add ''2026-01-01T00:00:00.000Z'' 1000 ''B'' ''beta'' Text_note]"

definition add_delete_add :: "note_op list" where
  "add_delete_add =
     [Add ''2026-01-01T00:00:00.000Z'' 1000 ''A'' ''alpha'' Text_note,
      Delete ''2026-01-01T00:00:00.000Z'',
      Add ''2026-01-01T00:00:05.000Z'' 6000 ''B'' ''beta'' Text_note,
      Add ''2026-01-01T00:00:09.000Z'' 9000 ''C'' ''gamma'' Text_note]"

definition three_notes :: "Note list" where
  "three_notes =
     [\<lparr> id_note = ''2026-01-01T00:00:00.000Z'', title = ''A'', content = ''alpha'',
         createdAt_note = 1000, type_note = Text_note \<rparr>,
      \<lparr> id_note = ''2026-01-01T00:00:05.000Z'', title = ''B'', content = ''beta'',
         createdAt_note = 6000, type_note = Image_note \<rparr>,
      \<lparr> id_note = ''2026-01-01T00:00:09.000Z'', title = ''C'', content = ''gamma'',
         createdAt_note = 9000, type_note = Text_note \<rparr>]"

section \<open>What the specification asks of a generated quiz\<close>

definition spec_question_ok :: "json \<Rightarrow> bool" where
  "spec_question_ok q =
     (case (get_prop q ''options'', get_prop q ''correctAnswerIndex'') of
        (Inr (Some (JArr os)), Inr (Some (JNum i))) \<Rightarrow>
          length os = 4 \<and> 0 \<le> i \<and> i < int (length os)
      | _ \<Rightarrow> False)"

definition spec_quiz_ok :: "json \<Rightarrow> bool" where
  "spec_quiz_ok v =
     (case v of JArr qs \<Rightarrow> length qs = 5 \<and> list_all spec_question_ok qs | _ \<Rightarrow> False)"

section \<open>The quiz operation of the gateway\<close>

text \<open>
  Claim C1, as written: every value that generateQuizFromNotes returns holds exactly 5
  questions, each with exactly 4 options and a correctAnswerIndex that indexes them.
  It fails where the service answers with one question that has one option and the
  index 7: the gateway hands that value on.
\<close>

theorem quiz_shape_unchecked_counterexample:
  "snd (generateQuizFromNotes service_one_bad_question [long_note]) = Inr one_bad_question
   \<and> \<not> spec_quiz_ok one_bad_question"
  by code_simp

text \<open>
  Claim C1, amended. generateQuizFromNotes returns a value exactly when the trimmed
  context has at least 50 characters and the answer of the service parses to a value
  whose \<open>questions\<close> member is truthy and has not the length 0; what it returns is that
  member, unchanged. Nothing else about the questions is checked.
\<close>

theorem quiz_success_exact:
  "snd (generateQuizFromNotes ai notes) = Inr v \<longleftrightarrow>
     50 \<le> length (trim (allNotesContent notes))
     \<and> (\<exists>result. ai (quiz_prompt notes) = Parsed result
                  \<and> get_prop result ''questions'' = Inr (Some v))
     \<and> truthy v \<and> js_length v \<noteq> Some (JNum 0)"
  by (auto simp: generateQuizFromNotes_def quiz_try_body_def
           split: ai_reply.splits sum.splits option.splits if_splits)

theorem quiz_success_exact_witness:
  "50 \<le> length (trim (allNotesContent [long_note]))
   \<and> truthy one_bad_question \<and> js_length one_bad_question \<noteq> Some (JNum 0)"
proof -
  have "snd (generateQuizFromNotes service_one_bad_question [long_note])
          = Inr one_bad_question"
    by code_simp
  then show ?thesis
    using quiz_success_exact [of service_one_bad_question "[long_note]" one_bad_question]
    by blast
qed

text \<open>
  Claim C2. When the trimmed length of the context blob built from the notes is below
  50, generateQuizFromNotes throws the not-enough-content error and sends nothing to the
  external service; when it is at least 50, exactly one request is sent, the quiz prompt
  built from the notes.
\<close>

theorem quiz_threshold_gates_service:
  "(length (trim (allNotesContent notes)) < 50 \<longrightarrow>
      generateQuizFromNotes ai notes =
        ([], Inl (Error ''Not enough content to generate a quiz. Please add more notes.'')))
   \<and> (50 \<le> length (trim (allNotesContent notes)) \<longrightarrow>
      fst (generateQuizFromNotes ai notes) = [quiz_prompt notes])"
  by (simp add: generateQuizFromNotes_def)

theorem quiz_threshold_gates_service_witness:
  "length (trim (allNotesContent [short_note])) < 50
   \<and> generateQuizFromNotes service_silent [short_note] =
        ([], Inl (Error ''Not enough content to generate a quiz. Please add more notes.''))
   \<and> 50 \<le> length (trim (allNotesContent [long_note]))
   \<and> fst (generateQuizFromNotes service_silent [long_note]) = [quiz_prompt [long_note]]"
proof -
  have short: "length (trim (allNotesContent [short_note])) = 25"
    by code_simp
  have long: "length (trim (allNotesContent [long_note])) = 83"
    by code_simp
  show ?thesis
    using quiz_threshold_gates_service [of "[short_note]" service_silent]
      quiz_threshold_gates_service [of "[long_note]" service_silent] short long
    by simp
qed

text \<open>
  Claim C3, at the answer \<open>{"questions": []}\<close> to a long enough note. The \<open>try\<close>
  block throws the error "AI failed to generate quiz questions.", and the \<open>catch\<close>
  around it replaces it: the caller sees the generic failure.
\<close>

theorem empty_result_error_masked:
  "quiz_try_body (service_no_questions (quiz_prompt [long_note]))
     = Inl (Error ''AI failed to generate quiz questions.'')
   \<and> snd (generateQuizFromNotes service_no_questions [long_note])
     = Inl (Error (''Failed to generate quiz from AI. The content might be ''
                   @ ''too complex or the service is unavailable.''))"
  by code_simp

theorem empty_result_error_masked_witness:
  "truthy (JArr []) \<and> js_length (JArr []) = Some (JNum 0)
   \<and> snd (generateQuizFromNotes service_no_questions [long_note])
       \<noteq> Inl (Error ''AI failed to generate quiz questions.'')"
proof -
  have "truthy (JArr []) \<and> js_length (JArr []) = Some (JNum 0)"
    by code_simp
  moreover have "Error (''Failed to generate quiz from AI. The content might be ''
                   @ ''too complex or the service is unavailable.'')
                 \<noteq> Error ''AI failed to generate quiz questions.''"
    by simp
  ultimately show ?thesis
    using empty_result_error_masked by simp
qed

text \<open>Whatever the service answers, the operation never returns an empty array.\<close>

lemma quiz_never_empty:
  "snd (generateQuizFromNotes ai notes) \<noteq> Inr (JArr [])"
  by (auto simp: generateQuizFromNotes_def quiz_try_body_def js_length_def
           split: ai_reply.splits sum.splits option.splits if_splits)

section \<open>The chat history\<close>

subsection \<open>findIndex\<close>

lemma findIndex_ge: "- 1 \<le> findIndex p xs"
  by (induction xs) (auto simp: Let_def)

lemma findIndex_absent: "findIndex p xs = - 1 \<longleftrightarrow> (\<forall>x\<in>set xs. \<not> p x)"
proof (induction xs)
  case Nil
  then show ?case by simp
next
  case (Cons x xs)
  have "- 1 \<le> findIndex p xs" by (rule findIndex_ge)
  with Cons show ?case by (auto simp: Let_def)
qed

lemma findIndex_first:
  "findIndex p xs \<noteq> - 1 \<Longrightarrow>
     nat (findIndex p xs) < length xs \<and> 0 \<le> findIndex p xs
     \<and> p (xs ! nat (findIndex p xs))
     \<and> (\<forall>j < nat (findIndex p xs). \<not> p (xs ! j))"
proof (induction xs)
  case Nil
  then show ?case by simp
next
  case (Cons x xs)
  show ?case
  proof (cases "p x")
    case True
    then show ?thesis by simp
  next
    case False
    with Cons.prems have ne: "findIndex p xs \<noteq> - 1" by (auto simp: Let_def)
    from Cons.IH [OF ne] have ih: "nat (findIndex p xs) < length xs" "0 \<le> findIndex p xs"
      "p (xs ! nat (findIndex p xs))" "\<forall>j < nat (findIndex p xs). \<not> p (xs ! j)" by auto
    have eq: "findIndex p (x # xs) = findIndex p xs + 1"
      using False ne by (simp add: Let_def)
    have n: "nat (findIndex p xs + 1) = Suc (nat (findIndex p xs))" using ih(2) by simp
    show ?thesis unfolding eq n using ih False
      by (auto simp: nth_Cons' less_Suc_eq_0_disj)
  qed
qed

subsection \<open>handleNewChatMessage\<close>

lemma handle_absent:
  assumes "id_msg message \<notin> set (map id_msg prev)"
  shows "handleNewChatMessage prev message = prev @ [message]"
proof -
  from assms have "\<forall>x\<in>set prev. id_msg x \<noteq> id_msg message"
    by (metis image_eqI list.set_map)
  then have "findIndex (\<lambda>m. id_msg m = id_msg message) prev = - 1"
    by (simp add: findIndex_absent)
  then show ?thesis by (simp add: handleNewChatMessage_def)
qed

lemma handle_present:
  assumes "id_msg message \<in> set (map id_msg prev)"
  shows "\<exists>i<length prev. id_msg (prev ! i) = id_msg message
           \<and> (\<forall>j<i. id_msg (prev ! j) \<noteq> id_msg message)
           \<and> handleNewChatMessage prev message = prev[i := message]"
proof -
  let ?p = "\<lambda>m. id_msg m = id_msg message"
  from assms obtain m where "m \<in> set prev" "?p m" by auto
  then have ne: "findIndex ?p prev \<noteq> - 1"
    by (auto simp: findIndex_absent)
  from findIndex_first [OF ne] findIndex_ge [of ?p prev] ne
  have "nat (findIndex ?p prev) < length prev" "?p (prev ! nat (findIndex ?p prev))"
    "\<forall>j < nat (findIndex ?p prev). \<not> ?p (prev ! j)" "findIndex ?p prev > - 1"
    by auto
  then show ?thesis
    by (intro exI [of _ "nat (findIndex ?p prev)"]) (simp add: handleNewChatMessage_def)
qed

lemma handle_ids:
  "map id_msg (handleNewChatMessage prev message) =
     (if id_msg message \<in> set (map id_msg prev) then map id_msg prev
      else map id_msg prev @ [id_msg message])"
proof (cases "id_msg message \<in> set (map id_msg prev)")
  case True
  from handle_present [OF True] obtain i where i: "i < length prev"
    "id_msg (prev ! i) = id_msg message"
    "handleNewChatMessage prev message = prev[i := message]"
    by blast
  have "map id_msg (prev[i := message]) = (map id_msg prev)[i := id_msg message]"
    by (simp add: map_update)
  also have "\<dots> = map id_msg prev" using i(1,2)
    by (metis list_update_id nth_map)
  finally show ?thesis using True i(3) by simp
next
  case False
  then show ?thesis by (simp add: handle_absent)
qed

lemma handle_id_set:
  "id_msg ` set (handleNewChatMessage prev message)
     = insert (id_msg message) (id_msg ` set prev)"
proof -
  have "set (map id_msg (handleNewChatMessage prev message))
          = insert (id_msg message) (set (map id_msg prev))"
    unfolding handle_ids by auto
  then show ?thesis by simp
qed

lemma handle_distinct:
  "distinct (map id_msg prev) \<Longrightarrow> distinct (map id_msg (handleNewChatMessage prev message))"
  by (simp add: handle_ids)

lemma handle_member: "message \<in> set (handleNewChatMessage prev message)"
proof (cases "id_msg message \<in> set (map id_msg prev)")
  case True
  from handle_present [OF True] show ?thesis
    by (auto simp: set_update_memI)
next
  case False
  then show ?thesis by (simp add: handle_absent)
qed

lemma unique_by_key:
  "distinct (map f xs) \<Longrightarrow> x \<in> set xs \<Longrightarrow> filter (\<lambda>y. f y = f x) xs = [x]"
proof (induction xs)
  case Nil
  then show ?case by simp
next
  case (Cons a xs)
  show ?case
  proof (cases "x = a")
    case True
    from Cons.prems(1) have "f a \<notin> f ` set xs" by simp
    with True have "\<forall>y\<in>set xs. f y \<noteq> f x" by (metis image_eqI)
    then have "filter (\<lambda>y. f y = f x) xs = []" by (simp add: filter_empty_conv)
    with True show ?thesis by simp
  next
    case False
    with Cons.prems have "x \<in> set xs" "distinct (map f xs)" "f a \<noteq> f x" by auto
    with Cons.IH show ?thesis by simp
  qed
qed

lemma handle_only:
  "distinct (map id_msg prev) \<Longrightarrow>
   filter (\<lambda>m. id_msg m = id_msg message) (handleNewChatMessage prev message) = [message]"
  by (rule unique_by_key [OF handle_distinct handle_member])

text \<open>
  Claim C4. A message whose id is not in the history is put at its end. A message whose
  id is in the history replaces the first message with that id, at its index, and
  nothing else changes. Histories built by handleNewChatMessage have distinct ids, and
  on such a history two messages with one id, applied one after the other, leave exactly
  one message with that id: the later one.
\<close>

theorem chat_message_upsert:
  "(id_msg message \<notin> set (map id_msg prev) \<longrightarrow>
      handleNewChatMessage prev message = prev @ [message])
   \<and> (id_msg message \<in> set (map id_msg prev) \<longrightarrow>
      (\<exists>i<length prev. id_msg (prev ! i) = id_msg message
         \<and> (\<forall>j<i. id_msg (prev ! j) \<noteq> id_msg message)
         \<and> handleNewChatMessage prev message = prev[i := message]))
   \<and> (distinct (map id_msg prev) \<and> id_msg later = id_msg message \<longrightarrow>
      filter (\<lambda>m. id_msg m = id_msg message)
        (handleNewChatMessage (handleNewChatMessage prev message) later) = [later])"
proof (intro conjI impI)
  assume "id_msg message \<notin> set (map id_msg prev)"
  then show "handleNewChatMessage prev message = prev @ [message]"
    by (rule handle_absent)
next
  assume "id_msg message \<in> set (map id_msg prev)"
  then show "\<exists>i<length prev. id_msg (prev ! i) = id_msg message
         \<and> (\<forall>j<i. id_msg (prev ! j) \<noteq> id_msg message)
         \<and> handleNewChatMessage prev message = prev[i := message]"
    by (rule handle_present)
next
  assume a: "distinct (map id_msg prev) \<and> id_msg later = id_msg message"
  let ?h = "handleNewChatMessage (handleNewChatMessage prev message) later"
  from a have "distinct (map id_msg ?h)" by (simp add: handle_distinct)
  moreover have "later \<in> set ?h" by (rule handle_member)
  ultimately have "filter (\<lambda>y. id_msg y = id_msg later) ?h = [later]"
    by (rule unique_by_key)
  with a show "filter (\<lambda>m. id_msg m = id_msg message) ?h = [later]" by simp
qed

theorem chat_message_upsert_witness:
  "id_msg hel \<notin> set (map id_msg [asked])
   \<and> handleNewChatMessage [asked] hel = [asked, hel]
   \<and> id_msg hello \<in> set (map id_msg [asked, hel, thanks])
   \<and> (\<exists>i<length [asked, hel, thanks].
         handleNewChatMessage [asked, hel, thanks] hello = [asked, hel, thanks][i := hello])
   \<and> handleNewChatMessage [asked, hel, thanks] hello = [asked, hello, thanks]
   \<and> distinct (map id_msg [asked]) \<and> id_msg hello = id_msg hel
   \<and> filter (\<lambda>m. id_msg m = id_msg hel)
        (handleNewChatMessage (handleNewChatMessage [asked] hel) hello) = [hello]"
proof -
  have absent: "id_msg hel \<notin> set (map id_msg [asked])"
    by code_simp
  have present: "id_msg hello \<in> set (map id_msg [asked, hel, thanks])"
    by code_simp
  have same: "distinct (map id_msg [asked]) \<and> id_msg hello = id_msg hel"
    by code_simp
  have in_place: "handleNewChatMessage [asked, hel, thanks] hello = [asked, hello, thanks]"
    by code_simp
  note new_id = chat_message_upsert [of hel "[asked]" hello]
  note old_id = chat_message_upsert [of hello "[asked, hel, thanks]" hello]
  from new_id absent have "handleNewChatMessage [asked] hel = [asked] @ [hel]"
    by blast
  then have appended: "handleNewChatMessage [asked] hel = [asked, hel]"
    by simp
  from new_id same have latest: "filter (\<lambda>m. id_msg m = id_msg hel)
        (handleNewChatMessage (handleNewChatMessage [asked] hel) hello) = [hello]"
    by blast
  from old_id present have replaced: "\<exists>i<length [asked, hel, thanks].
         handleNewChatMessage [asked, hel, thanks] hello = [asked, hel, thanks][i := hello]"
    by blast
  from absent appended present replaced in_place same latest show ?thesis
    by blast
qed

text \<open>Every history that handleNewChatMessage builds from the empty one has distinct ids.\<close>

lemma chat_ids_distinct: "distinct (map id_msg (foldl handleNewChatMessage [] messages))"
proof -
  have "distinct (map id_msg h) \<Longrightarrow> distinct (map id_msg (foldl handleNewChatMessage h messages))"
    for h
    by (induction messages arbitrary: h) (simp_all add: handle_distinct)
  from this [of "[]"] show ?thesis by simp
qed

subsection \<open>handleSend\<close>

lemma consume_ids:
  "mid \<in> set (map id_msg h) \<Longrightarrow> map id_msg (consume mid acc chunks h) = map id_msg h"
proof (induction chunks arbitrary: acc h)
  case Nil
  then show ?case by simp
next
  case (Cons chunk rest)
  let ?m = "\<lparr> id_msg = mid, role_msg = Model, text_msg = acc @ chunk_text chunk \<rparr>"
  have same: "map id_msg (handleNewChatMessage h ?m) = map id_msg h"
    using Cons.prems by (simp add: handle_ids)
  with Cons.prems have "mid \<in> set (map id_msg (handleNewChatMessage h ?m))" by simp
  from Cons.IH [OF this, of "acc @ chunk_text chunk"] same show ?case by simp
qed

lemma consume_text:
  "distinct (map id_msg h) \<Longrightarrow> chunks \<noteq> [] \<Longrightarrow>
   filter (\<lambda>m. id_msg m = mid) (consume mid acc chunks h)
     = [\<lparr> id_msg = mid, role_msg = Model,
          text_msg = acc @ concat (map chunk_text chunks) \<rparr>]"
proof (induction chunks arbitrary: acc h)
  case Nil
  then show ?case by simp
next
  case (Cons chunk rest)
  let ?m = "\<lparr> id_msg = mid, role_msg = Model, text_msg = acc @ chunk_text chunk \<rparr>"
  let ?h = "handleNewChatMessage h ?m"
  have d: "distinct (map id_msg ?h)" using Cons.prems(1) by (rule handle_distinct)
  show ?case
  proof (cases "rest = []")
    case True
    have "filter (\<lambda>m. id_msg m = id_msg ?m) ?h = [?m]"
      using Cons.prems(1) by (rule handle_only)
    with True show ?thesis by simp
  next
    case False
    from Cons.IH [OF d False, of "acc @ chunk_text chunk"] show ?thesis by simp
  qed
qed

lemma receive_text:
  assumes "distinct (map id_msg h)"
  shows "filter (\<lambda>m. id_msg m = mid) (receive mid chunks h)
     = [\<lparr> id_msg = mid, role_msg = Model,
          text_msg = (if chunks = [] then ''...'' else concat (map chunk_text chunks)) \<rparr>]"
proof -
  let ?m = "\<lparr> id_msg = mid, role_msg = Model, text_msg = ''...'' \<rparr>"
  let ?h = "handleNewChatMessage h ?m"
  have d: "distinct (map id_msg ?h)" using assms by (rule handle_distinct)
  show ?thesis
  proof (cases "chunks = []")
    case True
    have "filter (\<lambda>m. id_msg m = id_msg ?m) ?h = [?m]" using assms by (rule handle_only)
    with True show ?thesis by (simp add: receive_def)
  next
    case False
    from consume_text [OF d False, of mid "[]"] False show ?thesis
      by (simp add: receive_def)
  qed
qed

lemma receive_id_list:
  "map id_msg (receive mid chunks h)
     = map id_msg (handleNewChatMessage h \<lparr> id_msg = mid, role_msg = Model, text_msg = ''...'' \<rparr>)"
proof -
  let ?m = "\<lparr> id_msg = mid, role_msg = Model, text_msg = ''...'' \<rparr>"
  have "mid \<in> id_msg ` set (handleNewChatMessage h ?m)" by (simp add: handle_id_set)
  then have "mid \<in> set (map id_msg (handleNewChatMessage h ?m))" by simp
  then show ?thesis unfolding receive_def by (rule consume_ids)
qed

lemma receive_ids:
  "id_msg ` set (receive mid chunks h) = insert mid (id_msg ` set h)"
proof -
  have "set (map id_msg (receive mid chunks h))
          = set (map id_msg (handleNewChatMessage h
                   \<lparr> id_msg = mid, role_msg = Model, text_msg = ''...'' \<rparr>))"
    by (simp only: receive_id_list)
  then show ?thesis by (simp add: handle_id_set)
qed

lemma receive_distinct:
  "distinct (map id_msg h) \<Longrightarrow> distinct (map id_msg (receive mid chunks h))"
  by (simp add: receive_id_list handle_distinct)

lemma user_sent_distinct:
  "distinct (map id_msg (chatHistory s)) \<Longrightarrow> distinct (map id_msg (user_sent clk s))"
  unfolding user_sent_def by (rule handle_distinct)

lemma user_sent_ids:
  "id_msg ` set (user_sent clk s)
     = insert (toString (send_at clk)) (id_msg ` set (chatHistory s))"
  unfolding user_sent_def by (simp add: handle_id_set)

text \<open>handleSend keeps the ids of the history distinct.\<close>

lemma handleSend_distinct:
  assumes "distinct (map id_msg (chatHistory s))"
  shows "distinct (map id_msg (chatHistory (handleSend ai notes clk s)))"
  using assms
  by (auto simp: handleSend_def caught_def Let_def handle_distinct receive_distinct
        user_sent_distinct split: sum.splits stream_end.splits prod.splits)

text \<open>
  Claim C5, as written: after the stream has completed, the text of the model message
  is the concatenation of the fragments. It fails for the stream without fragments:
  the placeholder stays, and the concatenation of no fragments is the empty text.
\<close>

theorem chat_empty_stream_counterexample:
  "chatHistory (handleSend service_nothing [long_note] advancing_clock fresh_chat)
     = [\<lparr> id_msg = ''1000'', role_msg = User, text_msg = ''Hi?'' \<rparr>,
        \<lparr> id_msg = ''1201'', role_msg = Model, text_msg = ''...'' \<rparr>]
   \<and> service_nothing (chat_prompt [long_note] (apiHistory fresh_chat))
       = Streaming [] Completed
   \<and> concat (map chunk_text []) \<noteq> ''...''"
  by code_simp

text \<open>
  Claim C5, amended. When handleSend runs on a history with distinct ids and the
  stream completes, the history holds exactly one message with the id of the model
  message; its role is model; when the stream had no fragment its text is the
  placeholder "...", and otherwise its text is the concatenation, in the order of
  arrival, of what the loop appended for each fragment, which is the text of the
  fragment whenever the fragment carries one.
\<close>

theorem chat_stream_concatenated:
  assumes "trim (input s) \<noteq> []" and "\<not> isLoading_chat s"
    and "ai (chat_prompt ns (apiHistory s)) = Streaming chunks Completed"
    and "distinct (map id_msg (chatHistory s))"
  shows "filter (\<lambda>m. id_msg m = toString (stream_at clk + 1))
           (chatHistory (handleSend ai ns clk s))
         = [\<lparr> id_msg = toString (stream_at clk + 1), role_msg = Model,
              text_msg = (if chunks = [] then ''...'' else concat (map chunk_text chunks)) \<rparr>]
       \<and> map chunk_text (map Some texts) = texts"
proof -
  have "chatHistory (handleSend ai ns clk s)
          = receive (toString (stream_at clk + 1)) chunks (user_sent clk s)"
    using assms(1-3) by (simp add: handleSend_def getChatResponseStream_def)
  moreover have "map chunk_text (map Some texts) = texts"
    by (induction texts) (simp_all add: chunk_text_def)
  ultimately show ?thesis
    using receive_text [OF user_sent_distinct [OF assms(4)]] by simp
qed

theorem chat_stream_concatenated_witness:
  "trim (input fresh_chat) \<noteq> [] \<and> \<not> isLoading_chat fresh_chat
   \<and> service_hello (chat_prompt [long_note] (apiHistory fresh_chat))
       = Streaming (map Some [''Hel'', ''lo'']) Completed
   \<and> distinct (map id_msg (chatHistory fresh_chat))
   \<and> filter (\<lambda>m. id_msg m = ''1201'')
        (chatHistory (handleSend service_hello [long_note] advancing_clock fresh_chat))
       = [\<lparr> id_msg = ''1201'', role_msg = Model, text_msg = ''Hello'' \<rparr>]"
proof -
  have a: "trim (input fresh_chat) \<noteq> []" by code_simp
  have b: "\<not> isLoading_chat fresh_chat" by code_simp
  have c: "service_hello (chat_prompt [long_note] (apiHistory fresh_chat))
             = Streaming (map Some [''Hel'', ''lo'']) Completed"
    by (simp add: service_hello_def)
  have d: "distinct (map id_msg (chatHistory fresh_chat))" by code_simp
  have e: "toString (stream_at advancing_clock + 1) = ''1201''" by code_simp
  note run = chat_stream_concatenated
    [where s = fresh_chat and ai = service_hello and ns = "[long_note]"
       and chunks = "map Some [''Hel'', ''lo'']" and clk = advancing_clock
       and texts = "[''Hel'', ''lo'']"]
  from run [OF a b c d] have "filter (\<lambda>m. id_msg m = ''1201'')
        (chatHistory (handleSend service_hello [long_note] advancing_clock fresh_chat))
       = [\<lparr> id_msg = ''1201'', role_msg = Model, text_msg = ''Hello'' \<rparr>]"
    unfolding e by simp
  with a b c d show ?thesis by blast
qed

text \<open>
  A fragment whose text is \<open>undefined\<close> makes the loop append the word "undefined".
\<close>

lemma chat_fragment_without_text:
  "chatHistory (handleSend service_gap [long_note] advancing_clock fresh_chat)
     = [\<lparr> id_msg = ''1000'', role_msg = User, text_msg = ''Hi?'' \<rparr>,
        \<lparr> id_msg = ''1201'', role_msg = Model, text_msg = ''Helundefined'' \<rparr>]"
  by code_simp

text \<open>
  Claim C9, as written: when the stream breaks, the partial text stays and one more
  message with the error is put at the end. It fails when the clock reads in the
  \<open>catch\<close> what it read when the stream opened: the error message then has the id of
  the model message and replaces it, and the partial text "Hel" is gone.
\<close>

theorem chat_error_overwrites_counterexample:
  "chatHistory (handleSend service_breaks [long_note] stalled_clock fresh_chat)
     = [\<lparr> id_msg = ''1000'', role_msg = User, text_msg = ''Hi?'' \<rparr>,
        \<lparr> id_msg = ''1201'', role_msg = Model, text_msg = ''Error: boom'' \<rparr>]
   \<and> service_breaks (chat_prompt [long_note] (apiHistory fresh_chat))
       = Streaming [Some ''Hel''] (Broken (Error ''boom''))"
  by code_simp

text \<open>
  Claim C9, amended. When the stream breaks and the id of the error message, the
  reading of the clock in the \<open>catch\<close> plus one, differs from the id of the model
  message, from the id of the user message and from every id of the history before,
  the history is the one built up to the failure, followed by one model message whose
  text is "Error: " and the message of the error; under the id of the model message
  it still holds what the loop had put together from the fragments that arrived (the
  placeholder "..." when none had arrived).
\<close>

theorem chat_error_appended:
  assumes "trim (input s) \<noteq> []" and "\<not> isLoading_chat s"
    and "ai (chat_prompt ns (apiHistory s)) = Streaming chunks (Broken err)"
    and "distinct (map id_msg (chatHistory s))"
    and "toString (fail_at clk + 1) \<notin>
           insert (toString (stream_at clk + 1))
             (insert (toString (send_at clk)) (set (map id_msg (chatHistory s))))"
  shows "chatHistory (handleSend ai ns clk s)
           = receive (toString (stream_at clk + 1)) chunks (user_sent clk s)
             @ [\<lparr> id_msg = toString (fail_at clk + 1), role_msg = Model,
                  text_msg = ''Error: '' @ errorMessage err \<rparr>]
         \<and> filter (\<lambda>m. id_msg m = toString (stream_at clk + 1))
             (chatHistory (handleSend ai ns clk s))
           = [\<lparr> id_msg = toString (stream_at clk + 1), role_msg = Model,
                text_msg = (if chunks = [] then ''...''
                            else concat (map chunk_text chunks)) \<rparr>]"
proof -
  let ?mid = "toString (stream_at clk + 1)"
  let ?h = "receive ?mid chunks (user_sent clk s)"
  let ?e = "\<lparr> id_msg = toString (fail_at clk + 1), role_msg = Model,
              text_msg = ''Error: '' @ errorMessage err \<rparr>"
  have run: "chatHistory (handleSend ai ns clk s) = handleNewChatMessage ?h ?e"
    using assms(1-3) by (simp add: handleSend_def getChatResponseStream_def caught_def)
  have "id_msg ?e \<notin> set (map id_msg ?h)"
    using assms(5) by (simp add: receive_ids user_sent_ids)
  then have app: "handleNewChatMessage ?h ?e = ?h @ [?e]" by (rule handle_absent)
  have "?mid \<noteq> toString (fail_at clk + 1)" using assms(5) by auto
  then have "filter (\<lambda>m. id_msg m = ?mid) (?h @ [?e]) = filter (\<lambda>m. id_msg m = ?mid) ?h"
    by simp
  with run app receive_text [OF user_sent_distinct [OF assms(4)], of ?mid chunks]
  show ?thesis by simp
qed

theorem chat_error_appended_witness:
  "trim (input fresh_chat) \<noteq> [] \<and> \<not> isLoading_chat fresh_chat
   \<and> service_breaks (chat_prompt [long_note] (apiHistory fresh_chat))
       = Streaming [Some ''Hel''] (Broken (Error ''boom''))
   \<and> distinct (map id_msg (chatHistory fresh_chat))
   \<and> toString (fail_at advancing_clock + 1) \<notin>
        insert (toString (stream_at advancing_clock + 1))
          (insert (toString (send_at advancing_clock))
             (set (map id_msg (chatHistory fresh_chat))))
   \<and> chatHistory (handleSend service_breaks [long_note] advancing_clock fresh_chat)
       = [\<lparr> id_msg = ''1000'', role_msg = User, text_msg = ''Hi?'' \<rparr>,
          \<lparr> id_msg = ''1201'', role_msg = Model, text_msg = ''Hel'' \<rparr>,
          \<lparr> id_msg = ''1501'', role_msg = Model, text_msg = ''Error: boom'' \<rparr>]"
proof -
  have a: "trim (input fresh_chat) \<noteq> []" by code_simp
  have b: "\<not> isLoading_chat fresh_chat" by code_simp
  have c: "service_breaks (chat_prompt [long_note] (apiHistory fresh_chat))
             = Streaming [Some ''Hel''] (Broken (Error ''boom''))"
    by (simp add: service_breaks_def)
  have d: "distinct (map id_msg (chatHistory fresh_chat))" by code_simp
  have e: "toString (fail_at advancing_clock + 1) \<notin>
        insert (toString (stream_at advancing_clock + 1))
          (insert (toString (send_at advancing_clock))
             (set (map id_msg (chatHistory fresh_chat))))"
    by code_simp
  have f: "receive (toString (stream_at advancing_clock + 1)) [Some ''Hel'']
             (user_sent advancing_clock fresh_chat)
           @ [\<lparr> id_msg = toString (fail_at advancing_clock + 1), role_msg = Model,
                text_msg = ''Error: '' @ errorMessage (Error ''boom'') \<rparr>]
         = [\<lparr> id_msg = ''1000'', role_msg = User, text_msg = ''Hi?'' \<rparr>,
            \<lparr> id_msg = ''1201'', role_msg = Model, text_msg = ''Hel'' \<rparr>,
            \<lparr> id_msg = ''1501'', role_msg = Model, text_msg = ''Error: boom'' \<rparr>]"
    by code_simp
  note run = chat_error_appended
    [where s = fresh_chat and ai = service_breaks and ns = "[long_note]"
       and chunks = "[Some ''Hel'']" and err = "Error ''boom''" and clk = advancing_clock]
  from run [OF a b c d e]
  have "chatHistory (handleSend service_breaks [long_note] advancing_clock fresh_chat)
       = [\<lparr> id_msg = ''1000'', role_msg = User, text_msg = ''Hi?'' \<rparr>,
          \<lparr> id_msg = ''1201'', role_msg = Model, text_msg = ''Hel'' \<rparr>,
          \<lparr> id_msg = ''1501'', role_msg = Model, text_msg = ''Error: boom'' \<rparr>]"
    unfolding f by blast
  with a b c d e show ?thesis by blast
qed

section \<open>Quiz taking\<close>

subsection \<open>The scoring loop\<close>

lemma score_loop_count:
  "score_loop qs sel i finalScore =
     finalScore
     + length (filter (\<lambda>j. strict_eq (js_nth sel j) (correctAnswerIndex (qs ! j)))
                 [i..<length qs])"
proof (induction qs sel i finalScore rule: score_loop.induct)
  case (1 qs sel i finalScore)
  show ?case
  proof (cases "i < length qs")
    case True
    then have "[i..<length qs] = i # [i + 1..<length qs]" by (simp add: upt_conv_Cons)
    with True "1.IH" show ?thesis by (subst score_loop.simps) simp
  next
    case False
    then show ?thesis by (subst score_loop.simps) simp
  qed
qed

lemma count_upt_card: "length (filter P [0..<n]) = card {i. i < n \<and> P i}"
proof -
  have d: "distinct (filter P [0..<n])" by simp
  have s: "set (filter P [0..<n]) = {i. i < n \<and> P i}" by auto
  show ?thesis using distinct_card [OF d] s by simp
qed

lemma score_loop_card:
  "score_loop qs sel 0 0 =
     card {i. i < length qs \<and> strict_eq (js_nth sel i) (correctAnswerIndex (qs ! i))}"
  by (simp add: score_loop_count count_upt_card)

lemma score_loop_le: "score_loop qs sel 0 0 \<le> length qs"
proof -
  have "length (filter (\<lambda>j. strict_eq (js_nth sel j) (correctAnswerIndex (qs ! j)))
                  [0..<length qs])
          \<le> length [0..<length qs]"
    by (rule length_filter_le)
  then show ?thesis by (simp add: score_loop_count)
qed

lemma score_loop_all:
  assumes "\<forall>i<length qs. strict_eq (js_nth sel i) (correctAnswerIndex (qs ! i))"
  shows "score_loop qs sel 0 0 = length qs"
proof -
  from assms
  have "filter (\<lambda>j. strict_eq (js_nth sel j) (correctAnswerIndex (qs ! j))) [0..<length qs]
          = [0..<length qs]"
    by (simp add: filter_id_conv)
  then show ?thesis by (simp add: score_loop_count)
qed

text \<open>
  Claim C6. When handleNext is called on the last question, the quiz becomes
  finished, and its score is the number of questions whose selected answer is strictly
  equal to the correctAnswerIndex of the question; the score is at most the number of
  questions (and, a natural number, at least 0); the quiz recorded in the history
  carries these questions and this score; and when every question has its right
  answer selected, the score is the number of questions.
\<close>

theorem quiz_score_counts_matches:
  assumes "\<not> int (currentQuestionIndex s) < int (length (questions s)) - 1"
  shows "isFinished (handleNext iso_now now s)
    \<and> score (handleNext iso_now now s) =
        card {i. i < length (questions s)
                 \<and> strict_eq (js_nth (selectedAnswers s) i)
                      (correctAnswerIndex (questions s ! i))}
    \<and> score (handleNext iso_now now s) \<le> length (questions s)
    \<and> quizHistory (handleNext iso_now now s) =
        \<lparr> id_quiz = iso_now, questions_quiz = questions s, createdAt_quiz = now,
          score_quiz = score (handleNext iso_now now s) \<rparr> # quizHistory s
    \<and> ((\<forall>i<length (questions s).
           strict_eq (js_nth (selectedAnswers s) i) (correctAnswerIndex (questions s ! i)))
        \<longrightarrow> score (handleNext iso_now now s) = length (questions s))"
proof -
  let ?n = "score_loop (questions s) (selectedAnswers s) 0 0"
  have fin: "handleNext iso_now now s =
     s\<lparr> score := ?n, isFinished := True,
        quizHistory := handleQuizComplete iso_now (questions s) ?n now (quizHistory s) \<rparr>"
    using assms by (simp add: handleNext_def Let_def)
  have finished: "isFinished (handleNext iso_now now s)" by (simp add: fin)
  have sc: "score (handleNext iso_now now s) = ?n" by (simp add: fin)
  have recorded: "quizHistory (handleNext iso_now now s) =
        \<lparr> id_quiz = iso_now, questions_quiz = questions s, createdAt_quiz = now,
          score_quiz = score (handleNext iso_now now s) \<rparr> # quizHistory s"
    by (simp add: fin handleQuizComplete_def)
  show ?thesis
    using finished recorded score_loop_card [of "questions s" "selectedAnswers s"]
      score_loop_le [of "questions s" "selectedAnswers s"]
      score_loop_all [of "questions s" "selectedAnswers s"]
    unfolding sc by blast
qed

theorem quiz_score_counts_matches_witness:
  "foldl quiz_step (ready five_questions []) all_right_actions = all_right
   \<and> \<not> int (currentQuestionIndex all_right) < int (length (questions all_right)) - 1
   \<and> length (questions all_right) = 5
   \<and> list_all (\<lambda>i. strict_eq (js_nth (selectedAnswers all_right) i)
                       (correctAnswerIndex (questions all_right ! i))) [0..<5]
   \<and> isFinished (handleNext ''2026-01-01T00:00:04.000Z'' 5000 all_right)
   \<and> score (handleNext ''2026-01-01T00:00:04.000Z'' 5000 all_right) = 5"
proof -
  have reached: "foldl quiz_step (ready five_questions []) all_right_actions = all_right"
    by code_simp
  have h: "\<not> int (currentQuestionIndex all_right) < int (length (questions all_right)) - 1"
    by code_simp
  have len: "length (questions all_right) = 5"
    by code_simp
  have each: "list_all (\<lambda>i. strict_eq (js_nth (selectedAnswers all_right) i)
                         (correctAnswerIndex (questions all_right ! i))) [0..<5]"
    by code_simp
  then have a: "\<forall>i<length (questions all_right).
           strict_eq (js_nth (selectedAnswers all_right) i)
             (correctAnswerIndex (questions all_right ! i))"
    unfolding len by (simp add: list_all_iff)
  from quiz_score_counts_matches [OF h, of "''2026-01-01T00:00:04.000Z''" 5000] a len
  have "isFinished (handleNext ''2026-01-01T00:00:04.000Z'' 5000 all_right)
    \<and> score (handleNext ''2026-01-01T00:00:04.000Z'' 5000 all_right) = 5"
    by simp
  with reached h len each show ?thesis
    by blast
qed

text \<open>No action of the user brings a score above the number of questions into the history.\<close>

lemma quiz_step_history_bounded:
  assumes "\<forall>q\<in>set (quizHistory s). score_quiz q \<le> length (questions_quiz q)"
  shows "\<forall>q\<in>set (quizHistory (quiz_step s a)). score_quiz q \<le> length (questions_quiz q)"
proof (cases a)
  case (Select optionIndex)
  with assms show ?thesis by (simp add: handleSelectAnswer_def)
next
  case (Next iso_now now)
  with assms score_loop_le [of "questions s" "selectedAnswers s"] show ?thesis
    by (simp add: handleNext_def handleQuizComplete_def Let_def)
next
  case Review
  with assms show ?thesis by (simp add: review_def)
qed

text \<open>
  Claim C7, on a quiz of one question: the user answers it right and finishes,
  presses Review Answers, answers it wrong and finishes again. handleNext has then
  called handleQuizComplete twice, and the history holds two quizzes with the same
  questions, with the scores 1 and 0.
\<close>

theorem quiz_finalized_twice_after_review:
  "quizHistory (foldl quiz_step (ready one_question []) finish_review_finish) =
     [\<lparr> id_quiz = ''2026-01-01T00:00:05.000Z'', questions_quiz = one_question,
         createdAt_quiz = 6000, score_quiz = 0 \<rparr>,
      \<lparr> id_quiz = ''2026-01-01T00:00:00.000Z'', questions_quiz = one_question,
         createdAt_quiz = 1000, score_quiz = 1 \<rparr>]"
  by code_simp

section \<open>The note store\<close>

lemma deleteNote_ids_subset:
  "set (map id_note (deleteNote store noteId)) \<subseteq> set (map id_note store)"
  by (auto simp: deleteNote_def)

lemma deleteNote_distinct:
  "distinct (map id_note store) \<Longrightarrow> distinct (map id_note (deleteNote store noteId))"
  by (simp add: deleteNote_def distinct_map_filter)

lemma addNote_ids:
  "map id_note (addNote iso_now now t c ty prev) = map id_note prev @ [iso_now]"
  by (simp add: addNote_def)

lemma run_distinct_from:
  "distinct (map id_note store) \<Longrightarrow> distinct (add_stamps ops) \<Longrightarrow>
   set (add_stamps ops) \<inter> set (map id_note store) = {} \<Longrightarrow>
   distinct (map id_note (foldl note_step store ops))"
proof (induction ops arbitrary: store)
  case Nil
  then show ?case by simp
next
  case (Cons op ops)
  show ?case
  proof (cases op)
    case (Add iso_now now t c ty)
    let ?next = "addNote iso_now now t c ty store"
    from Cons.prems Add have fresh: "iso_now \<notin> set (map id_note store)"
      and rest: "distinct (add_stamps ops)" "iso_now \<notin> set (add_stamps ops)"
      and apart: "set (add_stamps ops) \<inter> set (map id_note store) = {}"
      by auto
    have d: "distinct (map id_note ?next)"
      using Cons.prems(1) fresh by (simp add: addNote_ids)
    have "set (add_stamps ops) \<inter> set (map id_note ?next) = {}"
      using rest(2) apart by (auto simp: addNote_ids)
    from Cons.IH [OF d rest(1) this] Add show ?thesis by simp
  next
    case (Delete noteId)
    let ?next = "deleteNote store noteId"
    have d: "distinct (map id_note ?next)"
      using Cons.prems(1) by (rule deleteNote_distinct)
    from Cons.prems Delete have rest: "distinct (add_stamps ops)"
      and apart: "set (add_stamps ops) \<inter> set (map id_note store) = {}"
      by auto
    have "set (add_stamps ops) \<inter> set (map id_note ?next) = {}"
      using apart deleteNote_ids_subset [of store noteId] by blast
    from Cons.IH [OF d rest this] Delete show ?thesis by simp
  qed
qed

text \<open>
  Claim C8, as written: after any adds and deletes from the empty store, no two notes
  have the same id. It fails for two adds that read the same clock string: both notes
  get that string as their id.
\<close>

theorem note_ids_collide_counterexample:
  "\<not> distinct (map id_note (run_notes same_instant_adds))"
  by code_simp

text \<open>
  Claim C8, amended. After any adds and deletes from the empty store in which the
  clock strings read by the adds are pairwise different, no two notes in the store
  have the same id.
\<close>

theorem note_ids_unique_when_clock_differs:
  "distinct (add_stamps ops) \<Longrightarrow> distinct (map id_note (run_notes ops))"
  unfolding run_notes_def by (rule run_distinct_from) simp_all

theorem note_ids_unique_when_clock_differs_witness:
  "distinct (add_stamps add_delete_add) \<and> distinct (map id_note (run_notes add_delete_add))"
proof -
  have h: "distinct (add_stamps add_delete_add)" by code_simp
  from note_ids_unique_when_clock_differs [OF h] h show ?thesis by simp
qed

lemma count_list_filter_keep: "P x \<Longrightarrow> count_list (filter P xs) x = count_list xs x"
  by (induction xs) auto

text \<open>
  Claim C10. After deleteNote no note with the given id is left; the result is a
  subsequence of the store, so the notes that stay keep their content and their order;
  every note with another id stays as often as it was there, and the notes with other
  ids, in order, are the same before and after; when no note has the id, the store is
  unchanged.
\<close>

theorem deleteNote_removes_only_that_id:
  "(\<forall>note \<in> set (deleteNote store noteId). id_note note \<noteq> noteId)
   \<and> subseq (deleteNote store noteId) store
   \<and> (\<forall>note. id_note note \<noteq> noteId \<longrightarrow>
         count_list (deleteNote store noteId) note = count_list store note)
   \<and> filter (\<lambda>note. id_note note \<noteq> noteId) (deleteNote store noteId)
       = filter (\<lambda>note. id_note note \<noteq> noteId) store
   \<and> (noteId \<notin> set (map id_note store) \<longrightarrow> deleteNote store noteId = store)"
proof (intro conjI)
  show "\<forall>note \<in> set (deleteNote store noteId). id_note note \<noteq> noteId"
    by (simp add: deleteNote_def)
  show "subseq (deleteNote store noteId) store"
    by (simp add: deleteNote_def)
  show "\<forall>note. id_note note \<noteq> noteId \<longrightarrow>
         count_list (deleteNote store noteId) note = count_list store note"
    by (simp add: deleteNote_def count_list_filter_keep)
  show "filter (\<lambda>note. id_note note \<noteq> noteId) (deleteNote store noteId)
       = filter (\<lambda>note. id_note note \<noteq> noteId) store"
    by (simp add: deleteNote_def)
  show "noteId \<notin> set (map id_note store) \<longrightarrow> deleteNote store noteId = store"
    by (auto simp: deleteNote_def filter_id_conv)
qed

theorem deleteNote_removes_only_that_id_witness:
  "deleteNote three_notes ''2026-01-01T00:00:05.000Z'' = [three_notes ! 0, three_notes ! 2]
   \<and> list_all (\<lambda>note. id_note note \<noteq> ''2026-01-01T00:00:05.000Z'')
         (deleteNote three_notes ''2026-01-01T00:00:05.000Z'')
   \<and> id_note (three_notes ! 0) \<noteq> ''2026-01-01T00:00:05.000Z''
   \<and> count_list (deleteNote three_notes ''2026-01-01T00:00:05.000Z'') (three_notes ! 0)
       = count_list three_notes (three_notes ! 0)
   \<and> ''1999-01-01T00:00:00.000Z'' \<notin> set (map id_note three_notes)
   \<and> deleteNote three_notes ''1999-01-01T00:00:00.000Z'' = three_notes"
proof -
  have a: "deleteNote three_notes ''2026-01-01T00:00:05.000Z''
             = [three_notes ! 0, three_notes ! 2]"
    by code_simp
  have b: "''1999-01-01T00:00:00.000Z'' \<notin> set (map id_note three_notes)"
    by code_simp
  have c: "id_note (three_notes ! 0) \<noteq> ''2026-01-01T00:00:05.000Z''"
    by code_simp
  note present = deleteNote_removes_only_that_id [of three_notes "''2026-01-01T00:00:05.000Z''"]
  note absent = deleteNote_removes_only_that_id [of three_notes "''1999-01-01T00:00:00.000Z''"]
  from present have d: "list_all (\<lambda>note. id_note note \<noteq> ''2026-01-01T00:00:05.000Z'')
         (deleteNote three_notes ''2026-01-01T00:00:05.000Z'')"
    unfolding list_all_iff by blast
  from present c
  have e: "count_list (deleteNote three_notes ''2026-01-01T00:00:05.000Z'') (three_notes ! 0)
       = count_list three_notes (three_notes ! 0)"
    by blast
  from absent b have f: "deleteNote three_notes ''1999-01-01T00:00:00.000Z'' = three_notes"
    by blast
  from a b c d e f show ?thesis by blast
qed

end
